theory Spec2Isabelle
  imports Complex_Main "HOL-Library.Char_ord" "HOL-Library.List_Lexorder"
begin

section \<open>Values of the loaded JSON document\<close>

text \<open>
  \<^verbatim>\<open>json.load\<close> turns the file into Python values: \<^verbatim>\<open>None\<close>, \<^verbatim>\<open>bool\<close>, \<^verbatim>\<open>int\<close>,
  \<^verbatim>\<open>float\<close>, \<^verbatim>\<open>str\<close>, \<^verbatim>\<open>list\<close> and \<^verbatim>\<open>dict\<close>. A dict is an association list whose
  keys are distinct (the parser keeps one value per key); lookup takes the first entry.
  Python's \<^verbatim>\<open>int\<close> is unbounded, hence \<open>int\<close>. A \<^verbatim>\<open>float\<close> is modelled by the rational
  number it denotes and float arithmetic by exact arithmetic: rounding, overflow, \<^verbatim>\<open>NaN\<close>
  and the infinities are not part of the model. A string is a list of characters.
\<close>

datatype json =
    JNull
  | JBool bool
  | JInt int
  | JFloat rat
  | JStr string
  | JList "json list"
  | JObj "(string \<times> json) list"

text \<open>The exceptions the two validators can raise after loading their input.\<close>

datatype py_error = TypeError | KeyError | AttributeError | ZeroDivisionError | ValueError

text \<open>Sequencing of computations that may raise: the first exception wins.\<close>

definition ebind :: "'e + 'a \<Rightarrow> ('a \<Rightarrow> 'e + 'b) \<Rightarrow> 'e + 'b" where
  "ebind m f = (case m of Inl e \<Rightarrow> Inl e | Inr v \<Rightarrow> f v)"

text \<open>
  A \<^verbatim>\<open>for\<close> loop whose body appends to a list: each element contributes the items its
  body appends; an exception in the body ends the loop and the function.
\<close>

fun for_each :: "('a \<Rightarrow> 'e + 'b list) \<Rightarrow> 'a list \<Rightarrow> 'e + 'b list" where
  "for_each f [] = Inr []"
| "for_each f (x # xs) =
     (case f x of
        Inl e \<Rightarrow> Inl e
      | Inr ys \<Rightarrow> (case for_each f xs of Inl e \<Rightarrow> Inl e | Inr zs \<Rightarrow> Inr (ys @ zs)))"

subsection \<open>Numbers\<close>

text \<open>\<^verbatim>\<open>bool\<close> is a subclass of \<^verbatim>\<open>int\<close>: \<^verbatim>\<open>True\<close> counts as 1 and \<^verbatim>\<open>False\<close> as 0.\<close>

fun int_of :: "json \<Rightarrow> int option" where
  "int_of (JBool b) = Some (if b then 1 else 0)"
| "int_of (JInt i) = Some i"
| "int_of _ = None"

fun num_of :: "json \<Rightarrow> rat option" where
  "num_of (JBool b) = Some (if b then 1 else 0)"
| "num_of (JInt i) = Some (of_int i)"
| "num_of (JFloat r) = Some r"
| "num_of _ = None"

subsection \<open>Equality (\<^verbatim>\<open>==\<close>)\<close>

text \<open>
  Numbers are equal by value (\<^verbatim>\<open>1 == 1.0 == True\<close>), lists elementwise, dicts when they
  have the same keys with equal values; values of different kinds are unequal.
\<close>

fun py_eq :: "json \<Rightarrow> json \<Rightarrow> bool"
  and py_eq_list :: "json list \<Rightarrow> json list \<Rightarrow> bool"
  and py_eq_items :: "(string \<times> json) list \<Rightarrow> (string \<times> json) list \<Rightarrow> bool"
  and py_eq_item :: "string \<Rightarrow> json \<Rightarrow> (string \<times> json) list \<Rightarrow> bool"
where
  "py_eq JNull JNull = True"
| "py_eq (JStr s) (JStr t) = (s = t)"
| "py_eq (JList xs) (JList ys) = py_eq_list xs ys"
| "py_eq (JObj a) (JObj b) = (length a = length b \<and> py_eq_items a b)"
| "py_eq a b = (case (num_of a, num_of b) of (Some x, Some y) \<Rightarrow> x = y | _ \<Rightarrow> False)"
| "py_eq_list [] [] = True"
| "py_eq_list (x # xs) (y # ys) = (py_eq x y \<and> py_eq_list xs ys)"
| "py_eq_list _ _ = False"
| "py_eq_items [] b = True"
| "py_eq_items ((k, v) # a) b = (py_eq_item k v b \<and> py_eq_items a b)"
| "py_eq_item k v [] = False"
| "py_eq_item k v ((k', v') # b) = (if k = k' then py_eq v v' else py_eq_item k v b)"

subsection \<open>Ordering (\<^verbatim>\<open><\<close>, \<^verbatim>\<open><=\<close>, \<^verbatim>\<open>>\<close>)\<close>

datatype cmp_op = Lt | Le | Gt

fun cmp_rat :: "cmp_op \<Rightarrow> rat \<Rightarrow> rat \<Rightarrow> bool" where
  "cmp_rat Lt x y = (x < y)"
| "cmp_rat Le x y = (x \<le> y)"
| "cmp_rat Gt x y = (x > y)"

fun cmp_str :: "cmp_op \<Rightarrow> string \<Rightarrow> string \<Rightarrow> bool" where
  "cmp_str Lt s t = (s < t)"
| "cmp_str Le s t = (s \<le> t)"
| "cmp_str Gt s t = (s > t)"

text \<open>
  Numbers compare by value, strings and lists lexicographically (a list comparison looks
  for the first position whose elements are not \<^verbatim>\<open>==\<close> and compares them); every other
  combination raises \<^verbatim>\<open>TypeError\<close>.
\<close>

fun py_cmp :: "cmp_op \<Rightarrow> json \<Rightarrow> json \<Rightarrow> py_error + bool"
  and py_cmp_list :: "cmp_op \<Rightarrow> json list \<Rightarrow> json list \<Rightarrow> py_error + bool"
where
  "py_cmp op (JStr s) (JStr t) = Inr (cmp_str op s t)"
| "py_cmp op (JList xs) (JList ys) = py_cmp_list op xs ys"
| "py_cmp op a b =
     (case (num_of a, num_of b) of
        (Some x, Some y) \<Rightarrow> Inr (cmp_rat op x y)
      | _ \<Rightarrow> Inl TypeError)"
| "py_cmp_list op [] [] = Inr (op = Le)"
| "py_cmp_list op [] (y # ys) = Inr (op \<noteq> Gt)"
| "py_cmp_list op (x # xs) [] = Inr (op = Gt)"
| "py_cmp_list op (x # xs) (y # ys) =
     (if py_eq x y then py_cmp_list op xs ys else py_cmp op x y)"

subsection \<open>Arithmetic (\<^verbatim>\<open>+\<close>, \<^verbatim>\<open>*\<close>, \<^verbatim>\<open>/\<close>)\<close>

text \<open>\<^verbatim>\<open>+\<close> adds numbers and concatenates two strings or two lists.\<close>

fun py_add :: "json \<Rightarrow> json \<Rightarrow> py_error + json" where
  "py_add (JStr s) (JStr t) = Inr (JStr (s @ t))"
| "py_add (JList xs) (JList ys) = Inr (JList (xs @ ys))"
| "py_add a b =
     (case (int_of a, int_of b) of
        (Some i, Some j) \<Rightarrow> Inr (JInt (i + j))
      | _ \<Rightarrow>
        (case (num_of a, num_of b) of
           (Some x, Some y) \<Rightarrow> Inr (JFloat (x + y))
         | _ \<Rightarrow> Inl TypeError))"

text \<open>\<^verbatim>\<open>*\<close> multiplies numbers and repeats a string or a list an integer number of times.\<close>

definition py_repeat :: "json \<Rightarrow> int \<Rightarrow> py_error + json" where
  "py_repeat s n =
     (case s of
        JStr cs \<Rightarrow> Inr (JStr (concat (replicate (nat n) cs)))
      | JList xs \<Rightarrow> Inr (JList (concat (replicate (nat n) xs)))
      | _ \<Rightarrow> Inl TypeError)"

definition py_mul :: "json \<Rightarrow> json \<Rightarrow> py_error + json" where
  "py_mul a b =
     (case (int_of a, int_of b) of
        (Some i, Some j) \<Rightarrow> Inr (JInt (i * j))
      | (Some i, None) \<Rightarrow>
          (case num_of b of Some y \<Rightarrow> Inr (JFloat (of_int i * y)) | None \<Rightarrow> py_repeat b i)
      | (None, Some j) \<Rightarrow>
          (case num_of a of Some x \<Rightarrow> Inr (JFloat (x * of_int j)) | None \<Rightarrow> py_repeat a j)
      | (None, None) \<Rightarrow>
          (case (num_of a, num_of b) of
             (Some x, Some y) \<Rightarrow> Inr (JFloat (x * y))
           | _ \<Rightarrow> Inl TypeError))"

text \<open>\<^verbatim>\<open>/\<close> is true division: defined on numbers only, with a float result.\<close>

definition py_truediv :: "json \<Rightarrow> json \<Rightarrow> py_error + json" where
  "py_truediv a b =
     (case (num_of a, num_of b) of
        (Some x, Some y) \<Rightarrow> (if y = 0 then Inl ZeroDivisionError else Inr (JFloat (x / y)))
      | _ \<Rightarrow> Inl TypeError)"

subsection \<open>Truth value, length, iteration, subscription\<close>

fun py_truthy :: "json \<Rightarrow> bool" where
  "py_truthy JNull = False"
| "py_truthy (JBool b) = b"
| "py_truthy (JInt i) = (i \<noteq> 0)"
| "py_truthy (JFloat r) = (r \<noteq> 0)"
| "py_truthy (JStr s) = (s \<noteq> [])"
| "py_truthy (JList xs) = (xs \<noteq> [])"
| "py_truthy (JObj kvs) = (kvs \<noteq> [])"

fun py_len :: "json \<Rightarrow> py_error + nat" where
  "py_len (JStr s) = Inr (length s)"
| "py_len (JList xs) = Inr (length xs)"
| "py_len (JObj kvs) = Inr (length kvs)"
| "py_len _ = Inl TypeError"

text \<open>Iterating a string yields its characters, iterating a dict its keys.\<close>

fun py_iter :: "json \<Rightarrow> py_error + json list" where
  "py_iter (JStr s) = Inr (map (\<lambda>c. JStr [c]) s)"
| "py_iter (JList xs) = Inr xs"
| "py_iter (JObj kvs) = Inr (map (\<lambda>kv. JStr (fst kv)) kvs)"
| "py_iter _ = Inl TypeError"

text \<open>\<^verbatim>\<open>obj[key]\<close> with a string key.\<close>

fun py_getitem :: "json \<Rightarrow> string \<Rightarrow> py_error + json" where
  "py_getitem (JObj kvs) k = (case map_of kvs k of None \<Rightarrow> Inl KeyError | Some v \<Rightarrow> Inr v)"
| "py_getitem _ k = Inl TypeError"

text \<open>\<^verbatim>\<open>obj.get(key, default)\<close>: only a dict has the method.\<close>

fun py_get :: "json \<Rightarrow> string \<Rightarrow> json \<Rightarrow> py_error + json" where
  "py_get (JObj kvs) k d = Inr (case map_of kvs k of None \<Rightarrow> d | Some v \<Rightarrow> v)"
| "py_get _ k d = Inl AttributeError"

subsection \<open>Strings: \<^verbatim>\<open>lower()\<close> and \<^verbatim>\<open>in\<close>\<close>

text \<open>Lower-casing maps the letters \<open>A\<close> to \<open>Z\<close>; other characters are unchanged.\<close>

definition lower_char :: "char \<Rightarrow> char" where
  "lower_char c =
     (let n = (of_char c :: nat) in if 65 \<le> n \<and> n \<le> 90 then char_of (n + 32) else c)"

definition py_lower :: "json \<Rightarrow> py_error + string" where
  "py_lower v = (case v of JStr s \<Rightarrow> Inr (map lower_char s) | _ \<Rightarrow> Inl AttributeError)"

fun starts_with :: "string \<Rightarrow> string \<Rightarrow> bool" where
  "starts_with [] s = True"
| "starts_with (p # ps) [] = False"
| "starts_with (p # ps) (c # cs) = (p = c \<and> starts_with ps cs)"

fun str_contains :: "string \<Rightarrow> string \<Rightarrow> bool" where
  "str_contains p [] = (p = [])"
| "str_contains p (c # cs) = (starts_with p (c # cs) \<or> str_contains p cs)"

text \<open>\<^verbatim>\<open>a or b\<close> on comparisons: \<open>b\<close> is evaluated only when \<open>a\<close> is false.\<close>

definition py_or :: "py_error + bool \<Rightarrow> py_error + bool \<Rightarrow> py_error + bool" where
  "py_or a b = ebind a (\<lambda>x. if x then Inr True else b)"

section \<open>The visual validator\<close>

text \<open>
  What \<^verbatim>\<open>open\<close> and \<^verbatim>\<open>json.load\<close> make of the path: \<^verbatim>\<open>FileNotFoundError\<close>,
  \<^verbatim>\<open>json.JSONDecodeError\<close>, or the parsed document.
\<close>

datatype source = NotFound | Malformed | Parsed json

text \<open>
  The issue strings of check 1, by the format string that builds them and the values it
  interpolates: \<^verbatim>\<open>Invalid bbox format in annotation {ann_id}\<close>,
  \<^verbatim>\<open>Annotation {ann_id}: Invalid bbox dimensions (w={w}, h={h})\<close>,
  \<^verbatim>\<open>Annotation {ann_id}: Negative coordinates (x={x}, y={y})\<close> and
  \<^verbatim>\<open>Annotation {ann_id}: Bbox exceeds image bounds\<close>.
\<close>

datatype issue =
    InvalidFormat json
  | InvalidDims json json json
  | NegativeCoords json json json
  | ExceedsBounds json

text \<open>An element of \<^verbatim>\<open>small_objects\<close> or \<^verbatim>\<open>large_boxes\<close>.\<close>

record box_entry =
  entry_id :: json
  entry_image_id :: json
  area_percent :: json

text \<open>\<^verbatim>\<open>next((img for img in images if img['id'] == image_id), None)\<close>\<close>

fun find_image :: "json list \<Rightarrow> json \<Rightarrow> py_error + json option" where
  "find_image [] image_id = Inr None"
| "find_image (img # imgs) image_id =
     ebind (py_getitem img ''id'') (\<lambda>i.
       if py_eq i image_id then Inr (Some img) else find_image imgs image_id)"

subsection \<open>Check 1: bounding boxes\<close>

text \<open>The body of the loop of check 1 for one annotation: the issues it appends.\<close>

definition check_bbox :: "json list \<Rightarrow> json \<Rightarrow> py_error + issue list" where
  "check_bbox images ann =
     ebind (py_get ann ''bbox'' (JList [])) (\<lambda>bbox.
     ebind (py_get ann ''image_id'' JNull) (\<lambda>image_id.
     ebind (py_get ann ''id'' JNull) (\<lambda>ann_id.
     ebind (py_len bbox) (\<lambda>n.
       if n \<noteq> 4 then Inr [InvalidFormat ann_id]
       else
         ebind (py_iter bbox) (\<lambda>comps.
           case comps of
             [x, y, w, h] \<Rightarrow>
               ebind (py_or (py_cmp Le w (JInt 0)) (py_cmp Le h (JInt 0))) (\<lambda>bad.
               ebind (find_image images image_id) (\<lambda>found.
                 case found of
                   None \<Rightarrow> Inr (if bad then [InvalidDims ann_id w h] else [])
                 | Some img \<Rightarrow>
                     if py_truthy img then
                       ebind (py_or (py_cmp Lt x (JInt 0)) (py_cmp Lt y (JInt 0))) (\<lambda>neg.
                       ebind (py_or
                                (ebind (py_add x w) (\<lambda>r.
                                 ebind (py_getitem img ''width'') (\<lambda>iw. py_cmp Gt r iw)))
                                (ebind (py_add y h) (\<lambda>b.
                                 ebind (py_getitem img ''height'') (\<lambda>ih. py_cmp Gt b ih))))
                         (\<lambda>out.
                            Inr ((if bad then [InvalidDims ann_id w h] else [])
                               @ (if neg then [NegativeCoords ann_id x y] else [])
                               @ (if out then [ExceedsBounds ann_id] else []))))
                     else Inr (if bad then [InvalidDims ann_id w h] else [])))
           | _ \<Rightarrow> Inl ValueError)))))"

subsection \<open>Checks 2 and 3: relative areas\<close>

definition img_area :: "json \<Rightarrow> py_error + json" where
  "img_area img =
     ebind (py_getitem img ''width'') (\<lambda>w.
     ebind (py_getitem img ''height'') (\<lambda>h. py_mul w h))"

definition percent_of :: "json \<Rightarrow> json \<Rightarrow> py_error + json" where
  "percent_of area a = ebind (py_truediv area a) (\<lambda>q. py_mul q (JInt 100))"

text \<open>The body of the loop of check 2 for one annotation.\<close>

definition small_step :: "json list \<Rightarrow> json \<Rightarrow> py_error + box_entry list" where
  "small_step images ann =
     ebind (py_get ann ''area'' (JInt 0)) (\<lambda>area.
     ebind (py_get ann ''image_id'' JNull) (\<lambda>img_id.
     ebind (find_image images img_id) (\<lambda>found.
       case found of
         None \<Rightarrow> Inr []
       | Some img \<Rightarrow>
           if py_truthy img then
             ebind (img_area img) (\<lambda>a.
             ebind (percent_of area a) (\<lambda>relative_area.
             ebind (py_cmp Lt relative_area (JInt 1)) (\<lambda>small.
               if small then
                 ebind (py_getitem ann ''id'') (\<lambda>i.
                   Inr [\<lparr>entry_id = i, entry_image_id = img_id,
                         area_percent = relative_area\<rparr>])
               else Inr [])))
           else Inr [])))"

text \<open>
  The search for the background category: the id of the first category whose lower-cased
  name contains \<^verbatim>\<open>background\<close>, and \<^verbatim>\<open>None\<close> when the loop ends without one.
\<close>

fun find_background :: "json list \<Rightarrow> py_error + json" where
  "find_background [] = Inr JNull"
| "find_background (cat # cats) =
     ebind (py_getitem cat ''name'') (\<lambda>name.
     ebind (py_lower name) (\<lambda>s.
       if str_contains ''background'' s then py_getitem cat ''id''
       else find_background cats))"

text \<open>The body of the loop of check 3 for one annotation.\<close>

definition large_step :: "json list \<Rightarrow> json \<Rightarrow> json \<Rightarrow> py_error + box_entry list" where
  "large_step images background_cat_id ann =
     ebind (py_getitem ann ''category_id'') (\<lambda>c.
       if py_eq c background_cat_id then
         ebind (py_getitem ann ''image_id'') (\<lambda>img_id.
         ebind (find_image images img_id) (\<lambda>found.
           case found of
             None \<Rightarrow> Inr []
           | Some img \<Rightarrow>
               if py_truthy img then
                 ebind (img_area img) (\<lambda>a.
                 ebind (py_getitem ann ''area'') (\<lambda>area.
                 ebind (percent_of area a) (\<lambda>relative_area.
                 ebind (py_cmp Gt relative_area (JInt 50)) (\<lambda>large.
                   if large then
                     ebind (py_getitem ann ''id'') (\<lambda>i.
                       Inr [\<lparr>entry_id = i, entry_image_id = img_id,
                             area_percent = relative_area\<rparr>])
                   else Inr []))))
               else Inr []))
       else Inr [])"

text \<open>
  Check 3. The result is \<open>None\<close> when the branch \<^verbatim>\<open>if background_cat_id:\<close> is not taken
  (nothing is scanned and nothing is printed) and the collected \<^verbatim>\<open>large_boxes\<close> otherwise.
\<close>

definition check_background ::
  "json list \<Rightarrow> json list \<Rightarrow> json list \<Rightarrow> py_error + box_entry list option" where
  "check_background images categories annotations =
     ebind (find_background categories) (\<lambda>background_cat_id.
       if py_truthy background_cat_id then
         ebind (for_each (large_step images background_cat_id) annotations) (\<lambda>large_boxes.
           Inr (Some large_boxes))
       else Inr None)"

subsection \<open>Check 4: coverage\<close>

text \<open>\<^verbatim>\<open>[ann for ann in annotations if ann['image_id'] == img['id']]\<close>\<close>

definition img_anns :: "json list \<Rightarrow> json \<Rightarrow> py_error + json list" where
  "img_anns annotations img =
     for_each (\<lambda>ann.
       ebind (py_getitem ann ''image_id'') (\<lambda>a.
       ebind (py_getitem img ''id'') (\<lambda>i.
         Inr (if py_eq a i then [ann] else [])))) annotations"

definition coverage_step :: "json list \<Rightarrow> json \<Rightarrow> py_error + json list" where
  "coverage_step annotations img =
     ebind (img_anns annotations img) (\<lambda>matching.
       if length matching = 0 then ebind (py_getitem img ''id'') (\<lambda>i. Inr [i])
       else Inr [])"

subsection \<open>The validator\<close>

text \<open>The local variables of the function when it reaches its \<^verbatim>\<open>return\<close>.\<close>

record visual_state =
  n_images :: nat
  n_annotations :: nat
  n_categories :: nat
  issues :: "issue list"
  small_objects_list :: "box_entry list"
  large_boxes :: "box_entry list option"
  images_without :: "json list"

text \<open>The returned dict \<^verbatim>\<open>results\<close>.\<close>

record visual_results =
  total_images :: nat
  total_annotations :: nat
  critical_issues :: nat
  small_objects :: nat
  large_backgrounds :: nat
  images_without_annotations :: nat

text \<open>
  The function body after loading. The three \<^verbatim>\<open>len\<close> calls of the overview come first;
  the \<^verbatim>\<open>print\<close> calls are otherwise left out.
\<close>

definition run_visual :: "json \<Rightarrow> py_error + visual_state" where
  "run_visual data =
     ebind (py_get data ''images'' (JList [])) (\<lambda>images.
     ebind (py_get data ''annotations'' (JList [])) (\<lambda>annotations.
     ebind (py_get data ''categories'' (JList [])) (\<lambda>categories.
     ebind (py_len images) (\<lambda>ni.
     ebind (py_len annotations) (\<lambda>na.
     ebind (py_len categories) (\<lambda>nc.
     ebind (py_iter images) (\<lambda>imgs.
     ebind (py_iter annotations) (\<lambda>anns.
     ebind (py_iter categories) (\<lambda>cats.
     ebind (for_each (check_bbox imgs) anns) (\<lambda>iss.
     ebind (for_each (small_step imgs) anns) (\<lambda>small.
     ebind (check_background imgs cats anns) (\<lambda>large.
     ebind (for_each (coverage_step anns) imgs) (\<lambda>uncovered.
       Inr \<lparr>n_images = ni, n_annotations = na, n_categories = nc, issues = iss,
            small_objects_list = small, large_boxes = large,
            images_without = uncovered\<rparr>)))))))))))))"

definition results_of :: "visual_state \<Rightarrow> visual_results" where
  "results_of s =
     \<lparr>total_images = n_images s,
      total_annotations = n_annotations s,
      critical_issues = length (issues s),
      small_objects = length (small_objects_list s),
      large_backgrounds = (case large_boxes s of None \<Rightarrow> 0 | Some l \<Rightarrow> length l),
      images_without_annotations = length (images_without s)\<rparr>"

text \<open>The result \<open>Inr None\<close> is the returned \<^verbatim>\<open>None\<close>; \<open>Inl e\<close> is an exception that leaves the function.\<close>

definition validate_visual_annotations :: "source \<Rightarrow> py_error + visual_results option" where
  "validate_visual_annotations src =
     (case src of
        NotFound \<Rightarrow> Inr None
      | Malformed \<Rightarrow> Inr None
      | Parsed data \<Rightarrow> ebind (run_visual data) (\<lambda>s. Inr (Some (results_of s))))"

section \<open>The text validator\<close>

text \<open>
  The table \<^verbatim>\<open>pd.read_csv\<close> returns: the column names of the header and the rows. A cell
  is the parsed value, \<open>NaN\<close> for a missing one. A row shorter than the header is padded
  with missing values, as the parser does.
\<close>

datatype cell = NaN | Str string | Num rat | Bool bool

record dataframe =
  columns :: "string list"
  rows :: "cell list list"

text \<open>
  What the \<^verbatim>\<open>try\<close> block makes of the path: \<^verbatim>\<open>ImportError\<close>, \<^verbatim>\<open>FileNotFoundError\<close>, or
  the table.
\<close>

datatype text_source = PandasMissing | CsvNotFound | Loaded dataframe

definition cell_at :: "cell list \<Rightarrow> nat \<Rightarrow> cell" where
  "cell_at row j = (if j < length row then row ! j else NaN)"

fun index_of :: "string \<Rightarrow> string list \<Rightarrow> nat option" where
  "index_of c [] = None"
| "index_of c (d # ds) = (if c = d then Some 0 else map_option Suc (index_of c ds))"

text \<open>\<^verbatim>\<open>df[name]\<close>: the column, or \<^verbatim>\<open>KeyError\<close> when the table has no such column.\<close>

definition get_column :: "dataframe \<Rightarrow> string \<Rightarrow> py_error + cell list" where
  "get_column df name =
     (case index_of name (columns df) of
        None \<Rightarrow> Inl KeyError
      | Some j \<Rightarrow> Inr (map (\<lambda>row. cell_at row j) (rows df)))"

text \<open>\<^verbatim>\<open>df.isnull().sum()\<close>: for each column, the number of missing cells.\<close>

definition isnull_sum :: "dataframe \<Rightarrow> (string \<times> nat) list" where
  "isnull_sum df =
     map (\<lambda>j. (columns df ! j, length (filter (\<lambda>row. cell_at row j = NaN) (rows df))))
       [0 ..< length (columns df)]"

text \<open>
  \<^verbatim>\<open>Series.value_counts()\<close>: missing values are dropped, each remaining value is counted,
  and the groups are listed by descending count.
\<close>

definition value_counts :: "cell list \<Rightarrow> (cell \<times> nat) list" where
  "value_counts xs =
     (let vs = filter (\<lambda>c. c \<noteq> NaN) xs
      in sort_key (\<lambda>p. - int (snd p)) (map (\<lambda>v. (v, count_list vs v)) (rev (remdups (rev vs)))))"

text \<open>\<^verbatim>\<open>percentage = (count / len(df)) * 100\<close> for each group.\<close>

definition percentages :: "(cell \<times> nat) list \<Rightarrow> nat \<Rightarrow> (cell \<times> rat) list" where
  "percentages counts n = map (\<lambda>p. (fst p, of_nat (snd p) / of_nat n * 100)) counts"

text \<open>\<^verbatim>\<open>Series.max()\<close> and \<^verbatim>\<open>Series.min()\<close>; \<open>None\<close> is the \<^verbatim>\<open>nan\<close> of an empty series.\<close>

fun series_max :: "nat list \<Rightarrow> nat option" where
  "series_max [] = None"
| "series_max (c # cs) = Some (fold max cs c)"

fun series_min :: "nat list \<Rightarrow> nat option" where
  "series_min [] = None"
| "series_min (c # cs) = Some (fold min cs c)"

text \<open>\<^verbatim>\<open>max_count / min_count > 3\<close>; a comparison with \<^verbatim>\<open>nan\<close> is false.\<close>

fun imbalanced :: "nat option \<Rightarrow> nat option \<Rightarrow> bool" where
  "imbalanced (Some max_count) (Some min_count) =
     ((of_nat max_count :: rat) / of_nat min_count > 3)"
| "imbalanced _ _ = False"

text \<open>What the function has computed and printed when it reaches its \<^verbatim>\<open>return\<close>.\<close>

record text_state =
  n_rows :: nat
  missing_cols :: "string list"
  empty_counts :: "(string \<times> nat) list"
  intent_counts :: "(cell \<times> nat) list"
  intent_percentages :: "(cell \<times> rat) list"
  imbalance_detected :: bool
  confidence_counts :: "(cell \<times> nat) list"
  confidence_percentages :: "(cell \<times> rat) list"
  low_confidence :: nat
  low_confidence_flagged :: bool

text \<open>The returned dict \<^verbatim>\<open>results\<close>.\<close>

record text_results =
  total_annotations :: nat
  unique_intents :: nat
  empty_values :: nat
  low_confidence_count :: nat

definition required_cols :: "string list" where
  "required_cols = [''id'', ''text'', ''intent'', ''confidence'']"

definition run_text :: "dataframe \<Rightarrow> py_error + text_state" where
  "run_text df =
     (let n = length (rows df);
          missing = filter (\<lambda>col. col \<notin> set (columns df)) required_cols;
          empty = isnull_sum df
      in
        ebind (get_column df ''intent'') (\<lambda>intent.
          let ic = value_counts intent;
              ip = percentages ic n;
              max_count = series_max (map snd ic);
              min_count = series_min (map snd ic);
              imb = imbalanced max_count min_count
          in
            ebind (get_column df ''confidence'') (\<lambda>confidence.
              let cc = value_counts confidence;
                  cp = percentages cc n;
                  low = length (filter (\<lambda>c. c = Str ''low'') confidence)
              in
                Inr \<lparr>n_rows = n, missing_cols = missing, empty_counts = empty,
                     intent_counts = ic, intent_percentages = ip,
                     imbalance_detected = imb,
                     confidence_counts = cc, confidence_percentages = cp,
                     low_confidence = low,
                     low_confidence_flagged = ((of_nat low :: rat) > of_nat n * (1 / 10))\<rparr>)))"

definition text_results_of :: "text_state \<Rightarrow> text_results" where
  "text_results_of s =
     \<lparr>total_annotations = n_rows s,
      unique_intents = length (intent_counts s),
      empty_values = sum_list (map snd (empty_counts s)),
      low_confidence_count = low_confidence s\<rparr>"

definition validate_text_annotations :: "text_source \<Rightarrow> py_error + text_results option" where
  "validate_text_annotations src =
     (case src of
        PandasMissing \<Rightarrow> Inr None
      | CsvNotFound \<Rightarrow> Inr None
      | Loaded df \<Rightarrow> ebind (run_text df) (\<lambda>s. Inr (Some (text_results_of s))))"

section \<open>Notions used in the statements\<close>

text \<open>
  An annotation references an image when the comparison \<^verbatim>\<open>ann['image_id'] == img['id']\<close>
  of check 4 is evaluated and true.
\<close>

definition references :: "json \<Rightarrow> json \<Rightarrow> bool" where
  "references ann img =
     (case py_getitem ann ''image_id'' of
        Inl e \<Rightarrow> False
      | Inr a \<Rightarrow> (case py_getitem img ''id'' of Inl e \<Rightarrow> False | Inr i \<Rightarrow> py_eq a i))"

subsection \<open>Example inputs\<close>

text \<open>
  One image of 100 by 100 pixels, a second image without annotations, an annotation of
  exactly 1 percent of the first image and one that leaves it at the right and bottom.
\<close>

definition ex_image :: json where
  "ex_image = JObj [(''id'', JInt 1), (''width'', JInt 100), (''height'', JInt 100)]"

definition ex_image2 :: json where
  "ex_image2 = JObj [(''id'', JInt 2), (''width'', JInt 100), (''height'', JInt 100)]"

definition ex_ann1 :: json where
  "ex_ann1 = JObj [(''id'', JInt 1), (''image_id'', JInt 1), (''category_id'', JInt 1),
                   (''bbox'', JList [JInt 0, JInt 0, JInt 10, JInt 10]), (''area'', JInt 100)]"

definition ex_ann2 :: json where
  "ex_ann2 = JObj [(''id'', JInt 2), (''image_id'', JInt 1), (''category_id'', JInt 1),
                   (''bbox'', JList [JInt 95, JInt 95, JInt 10, JInt 10]), (''area'', JInt 100)]"

definition ex_dataset :: json where
  "ex_dataset = JObj [(''images'', JList [ex_image, ex_image2]),
                      (''annotations'', JList [ex_ann1, ex_ann2]),
                      (''categories'', JList [JObj [(''id'', JInt 1), (''name'', JStr ''car'')]])]"

text \<open>An annotation whose bbox has three components, and one without an area.\<close>

definition ex_ann_short :: json where
  "ex_ann_short = JObj [(''id'', JInt 3), (''image_id'', JInt 1), (''category_id'', JInt 1),
                        (''bbox'', JList [JInt 0, JInt 0, JInt 10]), (''area'', JInt 100)]"

definition ex_ann_no_area :: "(string \<times> json) list" where
  "ex_ann_no_area = [(''id'', JInt 4), (''image_id'', JInt 1), (''category_id'', JInt 1),
                     (''bbox'', JList [JInt 0, JInt 0, JInt 10, JInt 10])]"

text \<open>An annotation whose bbox has four components, the third of them a string.\<close>

definition ex_ann_str :: json where
  "ex_ann_str = JObj [(''id'', JInt 5), (''image_id'', JInt 1), (''category_id'', JInt 1),
                      (''bbox'', JList [JInt 0, JInt 0, JStr ''a'', JInt 5]), (''area'', JInt 100)]"

definition ex_dataset_str :: json where
  "ex_dataset_str = JObj [(''images'', JList [ex_image]), (''annotations'', JList [ex_ann_str]),
                          (''categories'', JList [])]"

text \<open>An annotation with a negative x on the first image, and the same on an unknown image.\<close>

definition ex_neg_fields :: "(string \<times> json) list" where
  "ex_neg_fields = [(''id'', JInt 6), (''image_id'', JInt 1), (''category_id'', JInt 1),
                    (''bbox'', JList [JInt (- 5), JInt 0, JInt 10, JInt 10]), (''area'', JInt 100)]"

definition ex_orphan_fields :: "(string \<times> json) list" where
  "ex_orphan_fields = [(''id'', JInt 7), (''image_id'', JInt 9), (''category_id'', JInt 1),
                       (''bbox'', JList [JInt (- 5), JInt 0, JInt 10, JInt 10]), (''area'', JInt 100)]"

text \<open>
  A background category with the id 0 and an annotation of that category that covers
  90 percent of the first image; the same with the id 1.
\<close>

definition ex_background :: "int \<Rightarrow> json" where
  "ex_background cid = JObj [(''id'', JInt cid), (''name'', JStr ''Background'')]"

definition ex_ann_background :: "int \<Rightarrow> json" where
  "ex_ann_background cid =
     JObj [(''id'', JInt 8), (''image_id'', JInt 1), (''category_id'', JInt cid),
           (''bbox'', JList [JInt 0, JInt 0, JInt 100, JInt 90]), (''area'', JInt 9000)]"

definition ex_dataset_background :: "int \<Rightarrow> json" where
  "ex_dataset_background cid =
     JObj [(''images'', JList [ex_image]), (''annotations'', JList [ex_ann_background cid]),
           (''categories'', JList [ex_background cid])]"

text \<open>The sum of the percentages of a distribution.\<close>

definition percent_total :: "(cell \<times> rat) list \<Rightarrow> rat" where
  "percent_total ps = sum_list (map snd ps)"

text \<open>
  A table without the column \<^verbatim>\<open>intent\<close>, a table with a missing intent value, and a
  table with the intents a, a, a, b that lacks the columns \<^verbatim>\<open>id\<close> and \<^verbatim>\<open>text\<close>.
\<close>

definition ex_df_no_intent :: dataframe where
  "ex_df_no_intent =
     \<lparr>columns = [''id'', ''text'', ''confidence''],
      rows = [[Num 1, Str ''hello'', Str ''high'']]\<rparr>"

definition ex_df_nan :: dataframe where
  "ex_df_nan =
     \<lparr>columns = [''id'', ''text'', ''intent'', ''confidence''],
      rows = [[Num 1, Str ''hello'', Str ''greet'', Str ''high''],
              [Num 2, Str ''bye'', NaN, Str ''low'']]\<rparr>"

definition ex_df :: dataframe where
  "ex_df =
     \<lparr>columns = [''intent'', ''confidence''],
      rows = [[Str ''a'', Str ''high''], [Str ''a'', Str ''low''], [Str ''a'', Str ''high''],
              [Str ''b'', Str ''high'']]\<rparr>"

text \<open>The intents a, a, a, a, b.\<close>

definition ex_df5 :: dataframe where
  "ex_df5 =
     \<lparr>columns = [''intent'', ''confidence''],
      rows = [[Str ''a'', Str ''high''], [Str ''a'', Str ''high''], [Str ''a'', Str ''high''],
              [Str ''a'', Str ''high''], [Str ''b'', Str ''high'']]\<rparr>"

text \<open>
  Two annotations of category 1 on the first image: one of exactly 1 percent of the image
  and one of exactly 50 percent.
\<close>

definition ex_one_fields :: "(string \<times> json) list" where
  "ex_one_fields = [(''id'', JInt 1), (''image_id'', JInt 1), (''category_id'', JInt 1),
                    (''bbox'', JList [JInt 0, JInt 0, JInt 10, JInt 10]), (''area'', JInt 100)]"

definition ex_half_fields :: "(string \<times> json) list" where
  "ex_half_fields = [(''id'', JInt 2), (''image_id'', JInt 1), (''category_id'', JInt 1),
                     (''bbox'', JList [JInt 0, JInt 0, JInt 100, JInt 50]), (''area'', JInt 5000)]"

subsection \<open>Datasets of the expected shape\<close>

text \<open>
  The shape of a COCO dataset the validator is written for: the document is a dict; each
  of the keys \<^verbatim>\<open>images\<close>, \<^verbatim>\<open>annotations\<close> and \<^verbatim>\<open>categories\<close> is absent or holds a list;
  an image has an integer \<^verbatim>\<open>id\<close> and positive integer \<^verbatim>\<open>width\<close> and \<^verbatim>\<open>height\<close>; an
  annotation has integer \<^verbatim>\<open>id\<close>, \<^verbatim>\<open>image_id\<close> and \<^verbatim>\<open>category_id\<close>, a \<^verbatim>\<open>bbox\<close> of four
  numbers and a numeric \<^verbatim>\<open>area\<close>; a category has an integer \<^verbatim>\<open>id\<close> and a string
  \<^verbatim>\<open>name\<close>. Further keys are allowed.
\<close>

definition field :: "json \<Rightarrow> string \<Rightarrow> json option" where
  "field j k = (case j of JObj kvs \<Rightarrow> map_of kvs k | _ \<Rightarrow> None)"

definition has :: "json \<Rightarrow> string \<Rightarrow> (json \<Rightarrow> bool) \<Rightarrow> bool" where
  "has j k p = (case field j k of None \<Rightarrow> False | Some v \<Rightarrow> p v)"

fun is_int :: "json \<Rightarrow> bool" where
  "is_int (JInt i) = True"
| "is_int _ = False"

fun is_positive_int :: "json \<Rightarrow> bool" where
  "is_positive_int (JInt i) = (0 < i)"
| "is_positive_int _ = False"

fun is_number :: "json \<Rightarrow> bool" where
  "is_number (JInt i) = True"
| "is_number (JFloat r) = True"
| "is_number _ = False"

fun is_str :: "json \<Rightarrow> bool" where
  "is_str (JStr s) = True"
| "is_str _ = False"

fun is_bbox :: "json \<Rightarrow> bool" where
  "is_bbox (JList xs) = (length xs = 4 \<and> list_all is_number xs)"
| "is_bbox _ = False"

definition is_image :: "json \<Rightarrow> bool" where
  "is_image j \<longleftrightarrow>
     has j ''id'' is_int \<and> has j ''width'' is_positive_int \<and> has j ''height'' is_positive_int"

definition is_annotation :: "json \<Rightarrow> bool" where
  "is_annotation j \<longleftrightarrow>
     has j ''id'' is_int \<and> has j ''image_id'' is_int \<and> has j ''category_id'' is_int \<and>
     has j ''bbox'' is_bbox \<and> has j ''area'' is_number"

definition is_category :: "json \<Rightarrow> bool" where
  "is_category j \<longleftrightarrow> has j ''id'' is_int \<and> has j ''name'' is_str"

fun sequence_of :: "(json \<Rightarrow> bool) \<Rightarrow> json option \<Rightarrow> bool" where
  "sequence_of p None = True"
| "sequence_of p (Some (JList xs)) = list_all p xs"
| "sequence_of p (Some _) = False"

definition conforms :: "json \<Rightarrow> bool" where
  "conforms data \<longleftrightarrow>
     sequence_of is_image (field data ''images'') \<and>
     sequence_of is_annotation (field data ''annotations'') \<and>
     sequence_of is_category (field data ''categories'') \<and>
     (case data of JObj kvs \<Rightarrow> True | _ \<Rightarrow> False)"

text \<open>A dataset with a background category whose annotation has no \<^verbatim>\<open>category_id\<close>.\<close>

definition ex_ann_no_category :: json where
  "ex_ann_no_category =
     JObj [(''id'', JInt 1), (''image_id'', JInt 1),
           (''bbox'', JList [JInt 0, JInt 0, JInt 10, JInt 10]), (''area'', JInt 100)]"

definition ex_dataset_no_category :: json where
  "ex_dataset_no_category =
     JObj [(''images'', JList [ex_image]), (''annotations'', JList [ex_ann_no_category]),
           (''categories'', JList [ex_background 1])]"

section \<open>Properties\<close>

lemmas visual_defs =
  validate_visual_annotations_def run_visual_def check_bbox_def small_step_def large_step_def
  check_background_def coverage_step_def img_anns_def results_of_def py_or_def img_area_def
  percent_of_def py_mul_def py_truediv_def py_lower_def lower_char_def

lemmas ex_defs =
  ex_dataset_def ex_image_def ex_image2_def ex_ann1_def ex_ann2_def ex_ann_short_def
  ex_ann_no_area_def ex_ann_str_def ex_dataset_str_def ex_neg_fields_def ex_orphan_fields_def
  ex_background_def ex_ann_background_def ex_dataset_background_def

subsection \<open>Sequencing and loops\<close>

lemma ebind_Inr [simp]: "ebind (Inr v) f = f v"
  by (simp add: ebind_def)

lemma ebind_Inl [simp]: "ebind (Inl e) f = Inl e"
  by (simp add: ebind_def)

lemma ebind_eq_Inr: "ebind m f = Inr r \<longleftrightarrow> (\<exists>v. m = Inr v \<and> f v = Inr r)"
  by (cases m) simp_all

lemma for_each_Inr_mem:
  "for_each f xs = Inr ys \<Longrightarrow> x \<in> set xs \<Longrightarrow> \<exists>zs. f x = Inr zs \<and> set zs \<subseteq> set ys"
  by (induction xs arbitrary: ys) (fastforce split: sum.splits)+

lemma for_each_Inr_set:
  "for_each f xs = Inr ys \<Longrightarrow> y \<in> set ys \<Longrightarrow> \<exists>x zs. x \<in> set xs \<and> f x = Inr zs \<and> y \<in> set zs"
  by (induction xs arbitrary: ys) (fastforce split: sum.splits)+

lemma for_each_total:
  "(\<And>x. x \<in> set xs \<Longrightarrow> \<exists>zs. f x = Inr zs) \<Longrightarrow> \<exists>ys. for_each f xs = Inr ys"
  by (induction xs) (fastforce split: sum.splits)+

lemma find_image_Some:
  "find_image imgs i = Inr (Some img) \<Longrightarrow>
     img \<in> set imgs \<and> (\<exists>v. py_getitem img ''id'' = Inr v \<and> py_eq v i)"
  by (induction imgs) (auto simp: ebind_eq_Inr split: if_splits)

lemma py_getitem_Inr: "py_getitem j k = Inr v \<Longrightarrow> \<exists>kvs. j = JObj kvs \<and> map_of kvs k = Some v"
  by (cases j) (auto split: option.splits)

lemma find_image_truthy: "find_image imgs i = Inr (Some img) \<Longrightarrow> py_truthy img"
  by (auto dest!: find_image_Some py_getitem_Inr)

lemma py_cmp_num:
  "num_of a = Some x \<Longrightarrow> num_of b = Some y \<Longrightarrow> py_cmp op a b = Inr (cmp_rat op x y)"
  by (cases a; cases b) simp_all

lemma py_add_num:
  "num_of a = Some x \<Longrightarrow> num_of b = Some y \<Longrightarrow> \<exists>v. py_add a b = Inr v \<and> num_of v = Some (x + y)"
  by (cases a; cases b) auto

lemma py_mul_num:
  "num_of a = Some x \<Longrightarrow> num_of b = Some y \<Longrightarrow> \<exists>v. py_mul a b = Inr v \<and> num_of v = Some (x * y)"
  by (cases a; cases b) (auto simp: py_mul_def)

lemma py_truediv_num:
  "num_of a = Some x \<Longrightarrow> num_of b = Some y \<Longrightarrow> y \<noteq> 0 \<Longrightarrow> py_truediv a b = Inr (JFloat (x / y))"
  by (simp add: py_truediv_def)

lemma percent_of_num:
  "num_of a = Some x \<Longrightarrow> num_of b = Some y \<Longrightarrow> y \<noteq> 0 \<Longrightarrow>
     percent_of a b = Inr (JFloat (x / y * 100))"
  by (simp add: percent_of_def py_truediv_def py_mul_def)

lemma img_area_num:
  "py_getitem img ''width'' = Inr w \<Longrightarrow> py_getitem img ''height'' = Inr h \<Longrightarrow>
   num_of w = Some x \<Longrightarrow> num_of h = Some y \<Longrightarrow>
     \<exists>a. img_area img = Inr a \<and> num_of a = Some (x * y)"
  by (simp add: img_area_def py_mul_num)

lemma for_each_Cons_mid:
  "for_each f pre = Inr a \<Longrightarrow> f x = Inr zs \<Longrightarrow> for_each f post = Inr b \<Longrightarrow>
     for_each f (pre @ x # post) = Inr (a @ zs @ b)"
  by (induction pre arbitrary: a) (auto split: sum.splits)

lemma img_anns_empty_iff:
  "img_anns anns img = Inr m \<Longrightarrow> (m = []) = (\<not> (\<exists>ann\<in>set anns. references ann img))"
  unfolding img_anns_def
  by (induction anns arbitrary: m)
     (auto simp: references_def ebind_eq_Inr split: sum.splits if_splits)

lemma coverage_step_length:
  "coverage_step anns img = Inr zs \<Longrightarrow>
     length zs = (if \<exists>ann\<in>set anns. references ann img then 0 else 1)"
  unfolding coverage_step_def
  by (auto simp: ebind_eq_Inr dest: img_anns_empty_iff split: if_splits)

lemma coverage_length:
  "for_each (coverage_step anns) imgs = Inr u \<Longrightarrow>
     length u = length (filter (\<lambda>img. \<not> (\<exists>ann\<in>set anns. references ann img)) imgs)"
proof (induction imgs arbitrary: u)
  case Nil
  then show ?case by simp
next
  case (Cons img imgs)
  from Cons.prems obtain zs v where
    zs: "coverage_step anns img = Inr zs" and v: "for_each (coverage_step anns) imgs = Inr v"
    and u: "u = zs @ v"
    by (auto split: sum.splits)
  from coverage_step_length [OF zs] Cons.IH [OF v] u show ?case by simp
qed

subsection \<open>Check 4: images without annotations\<close>

text \<open>
  Claim C8. When the validator returns its results, \<^verbatim>\<open>images_without_annotations\<close> is the
  number of images that no annotation references, where an annotation references an image
  when its \<^verbatim>\<open>image_id\<close> equals the image's \<^verbatim>\<open>id\<close>. Nothing else about the annotation
  enters the count: the issues of check 1 play no part in it.
\<close>

theorem images_without_annotations_count:
  assumes "validate_visual_annotations (Parsed data) = Inr (Some r)"
    and "py_get data ''images'' (JList []) = Inr images" and "py_iter images = Inr imgs"
    and "py_get data ''annotations'' (JList []) = Inr annotations"
    and "py_iter annotations = Inr anns"
  shows "images_without_annotations r =
           length (filter (\<lambda>img. \<not> (\<exists>ann\<in>set anns. references ann img)) imgs)"
proof -
  from assms(1) obtain s where s: "run_visual data = Inr s" and r: "r = results_of s"
    by (auto simp: validate_visual_annotations_def ebind_eq_Inr)
  from s assms(2-5) have "for_each (coverage_step anns) imgs = Inr (images_without s)"
    by (auto simp: run_visual_def ebind_eq_Inr)
  from coverage_length [OF this] r show ?thesis
    by (simp add: results_of_def)
qed

theorem images_without_annotations_count_witness:
  "validate_visual_annotations (Parsed ex_dataset) =
     Inr (Some \<lparr>total_images = 2, total_annotations = 2, critical_issues = 1, small_objects = 0,
                large_backgrounds = 0, images_without_annotations = 1\<rparr>) \<and>
   length (filter (\<lambda>img. \<not> (\<exists>ann\<in>set [ex_ann1, ex_ann2]. references ann img))
             [ex_image, ex_image2]) = 1"
proof -
  have run: "validate_visual_annotations (Parsed ex_dataset) =
     Inr (Some \<lparr>total_images = 2, total_annotations = 2, critical_issues = 1, small_objects = 0,
                large_backgrounds = 0, images_without_annotations = 1\<rparr>)"
    by (simp add: visual_defs ex_defs)
  show ?thesis
    using run images_without_annotations_count [OF run,
        of "JList [ex_image, ex_image2]" "[ex_image, ex_image2]"
           "JList [ex_ann1, ex_ann2]" "[ex_ann1, ex_ann2]"]
    by (simp add: ex_dataset_def)
qed

subsection \<open>Check 1: the format of a bbox\<close>

text \<open>
  Claim C5, as amended. For an annotation whose bbox is absent or is a sequence whose length
  is not 4, check 1 appends exactly the issue "invalid bbox format" for that annotation and
  goes on with the next annotation: if the loop completes on the annotations before and
  after it, it completes on the whole sequence, with that one issue in between. (The
  components of a bbox of length 4 are not inspected before they are compared.)
\<close>

theorem invalid_bbox_length_reported:
  assumes "py_get ann ''bbox'' (JList []) = Inr bbox"
    and "py_len bbox = Inr n" and "n \<noteq> 4"
    and "py_get ann ''id'' JNull = Inr ann_id"
  shows "check_bbox images ann = Inr [InvalidFormat ann_id] \<and>
         (for_each (check_bbox images) pre = Inr a \<longrightarrow>
          for_each (check_bbox images) post = Inr b \<longrightarrow>
            for_each (check_bbox images) (pre @ ann # post) = Inr (a @ InvalidFormat ann_id # b))"
proof -
  from assms(1) obtain kvs where ann: "ann = JObj kvs"
    by (cases ann) simp_all
  from assms ann have step: "check_bbox images ann = Inr [InvalidFormat ann_id]"
    by (simp add: check_bbox_def)
  show ?thesis
    using step for_each_Cons_mid [where f = "check_bbox images" and x = ann, OF _ step]
    by simp
qed

theorem invalid_bbox_length_reported_witness:
  "py_get ex_ann_short ''bbox'' (JList []) = Inr (JList [JInt 0, JInt 0, JInt 10]) \<and>
   py_len (JList [JInt 0, JInt 0, JInt 10]) = Inr 3 \<and> (3::nat) \<noteq> 4 \<and>
   py_get ex_ann_short ''id'' JNull = Inr (JInt 3) \<and>
   for_each (check_bbox [ex_image]) [ex_ann1, ex_ann_short, ex_ann2] =
     Inr [InvalidFormat (JInt 3), ExceedsBounds (JInt 2)]"
proof -
  have h1: "py_get ex_ann_short ''bbox'' (JList []) = Inr (JList [JInt 0, JInt 0, JInt 10])"
    by (simp add: ex_defs)
  have h2: "py_len (JList [JInt 0, JInt 0, JInt 10]) = Inr 3" by simp
  have h3: "(3::nat) \<noteq> 4" by simp
  have h4: "py_get ex_ann_short ''id'' JNull = Inr (JInt 3)" by (simp add: ex_defs)
  have pre: "for_each (check_bbox [ex_image]) [ex_ann1] = Inr []"
    by (simp add: visual_defs ex_defs)
  have post: "for_each (check_bbox [ex_image]) [ex_ann2] = Inr [ExceedsBounds (JInt 2)]"
    by (simp add: visual_defs ex_defs)
  show ?thesis
    using h1 h2 h3 h4 pre post
      invalid_bbox_length_reported [OF h1 h2 h3 h4, of "[ex_image]" "[ex_ann1]" "[]"
        "[ex_ann2]" "[ExceedsBounds (JInt 2)]"]
    by simp
qed

subsection \<open>Checks 2 and 3: an annotation without an area\<close>



subsection \<open>Check 1: coordinates and image lookup\<close>

lemma py_or_Inr [simp]: "py_or (Inr a) (Inr b) = Inr (a \<or> b)"
  by (simp add: py_or_def)

lemma find_image_first_match:
  "find_image imgs i = Inr (Some img) \<Longrightarrow>
     \<exists>pre post. imgs = pre @ img # post \<and>
       (\<forall>p\<in>set pre. \<exists>v. py_getitem p ''id'' = Inr v \<and> \<not> py_eq v i) \<and>
       (\<exists>v. py_getitem img ''id'' = Inr v \<and> py_eq v i)"
proof (induction imgs)
  case Nil
  then show ?case by simp
next
  case (Cons a imgs)
  from Cons.prems obtain v where v: "py_getitem a ''id'' = Inr v"
    by (auto simp: ebind_eq_Inr)
  show ?case
  proof (cases "py_eq v i")
    case True
    with Cons.prems v have "img = a" by simp
    with True v show ?thesis by (intro exI [of _ "[]"] exI [of _ imgs]) auto
  next
    case False
    with Cons.prems v have "find_image imgs i = Inr (Some img)" by simp
    from Cons.IH [OF this] obtain pre post where
      "imgs = pre @ img # post"
      "\<forall>p\<in>set pre. \<exists>v. py_getitem p ''id'' = Inr v \<and> \<not> py_eq v i"
      "\<exists>v. py_getitem img ''id'' = Inr v \<and> py_eq v i" by blast
    with False v show ?thesis
      by (intro exI [of _ "a # pre"] exI [of _ post]) auto
  qed
qed

text \<open>
  Claim C6. For an annotation with a bbox of four components whose x and y are numbers,
  when check 1 completes on it: if x or y is negative, the issue "negative coordinates" is
  among the issues of the annotation exactly when its \<^verbatim>\<open>image_id\<close> resolves to an image;
  when the \<^verbatim>\<open>image_id\<close> matches no image, the only issue the annotation can have is the one
  about its dimensions; and the image an \<^verbatim>\<open>image_id\<close> resolves to is the first of the
  sequence whose \<^verbatim>\<open>id\<close> equals it.
\<close>

theorem negative_coordinates_iff_resolved:
  assumes bbox: "map_of kvs ''bbox'' = Some (JList [x, y, w, h])"
    and x: "num_of x = Some xr" and y: "num_of y = Some yr"
    and iid: "py_get (JObj kvs) ''image_id'' JNull = Inr image_id"
    and aid: "py_get (JObj kvs) ''id'' JNull = Inr ann_id"
    and run: "check_bbox images (JObj kvs) = Inr iss"
  shows "(xr < 0 \<or> yr < 0 \<longrightarrow>
           (NegativeCoords ann_id x y \<in> set iss \<longleftrightarrow>
              (\<exists>img. find_image images image_id = Inr (Some img)))) \<and>
         (find_image images image_id = Inr None \<longrightarrow>
            (\<forall>i\<in>set iss. i = InvalidDims ann_id w h)) \<and>
         (\<forall>img. find_image images image_id = Inr (Some img) \<longrightarrow>
            (\<exists>pre post. images = pre @ img # post \<and>
               (\<forall>p\<in>set pre. \<exists>v. py_getitem p ''id'' = Inr v \<and> \<not> py_eq v image_id) \<and>
               (\<exists>v. py_getitem img ''id'' = Inr v \<and> py_eq v image_id)))"
proof -
  have neg: "py_or (py_cmp Lt x (JInt 0)) (py_cmp Lt y (JInt 0)) = Inr (xr < 0 \<or> yr < 0)"
    using py_cmp_num [OF x, of "JInt 0" 0 Lt] py_cmp_num [OF y, of "JInt 0" 0 Lt] by simp
  from run bbox iid aid obtain bad found where
    bad: "py_or (py_cmp Le w (JInt 0)) (py_cmp Le h (JInt 0)) = Inr bad"
    and found: "find_image images image_id = Inr found"
    by (auto simp: check_bbox_def ebind_eq_Inr)
  show ?thesis
  proof (cases found)
    case None
    with run bbox iid aid bad found show ?thesis
      by (auto simp: check_bbox_def)
  next
    case (Some img)
    with found have tr: "py_truthy img" by (auto dest: find_image_truthy)
    from run bbox iid aid bad found Some tr neg have "(xr < 0 \<or> yr < 0) \<longrightarrow> NegativeCoords ann_id x y \<in> set iss"
      by (auto simp: check_bbox_def ebind_eq_Inr)
    with found Some find_image_first_match [of images image_id img] show ?thesis
      by auto
  qed
qed

theorem negative_coordinates_iff_resolved_witness:
  "check_bbox [ex_image] (JObj ex_neg_fields) =
     Inr [NegativeCoords (JInt 6) (JInt (- 5)) (JInt 0)] \<and>
   find_image [ex_image] (JInt 1) = Inr (Some ex_image) \<and>
   check_bbox [ex_image] (JObj ex_orphan_fields) = Inr [] \<and>
   find_image [ex_image] (JInt 9) = Inr None"
proof -
  have b: "map_of ex_neg_fields ''bbox'' = Some (JList [JInt (- 5), JInt 0, JInt 10, JInt 10])"
    by (simp add: ex_defs)
  have x: "num_of (JInt (- 5)) = Some (- 5)" by simp
  have y: "num_of (JInt 0) = Some 0" by simp
  have i: "py_get (JObj ex_neg_fields) ''image_id'' JNull = Inr (JInt 1)"
    by (simp add: ex_defs)
  have a: "py_get (JObj ex_neg_fields) ''id'' JNull = Inr (JInt 6)" by (simp add: ex_defs)
  have r: "check_bbox [ex_image] (JObj ex_neg_fields) =
             Inr [NegativeCoords (JInt 6) (JInt (- 5)) (JInt 0)]"
    by (simp add: visual_defs ex_defs)
  have f: "find_image [ex_image] (JInt 1) = Inr (Some ex_image)" by (simp add: ex_defs)
  have o: "check_bbox [ex_image] (JObj ex_orphan_fields) = Inr []"
    by (simp add: visual_defs ex_defs)
  have n: "find_image [ex_image] (JInt 9) = Inr None" by (simp add: ex_defs)
  show ?thesis
    using r f o n negative_coordinates_iff_resolved [OF b x y i a r] by simp
qed

text \<open>
  Claim C5 as stated fails: a bbox of four components of which one is not a number is not
  reported as an invalid format. The comparison with 0 raises \<^verbatim>\<open>TypeError\<close>, which
  leaves the validator.
\<close>

theorem non_numeric_bbox_raises:
  "check_bbox [ex_image] ex_ann_str = Inl TypeError \<and>
   validate_visual_annotations (Parsed ex_dataset_str) = Inl TypeError"
  by (simp add: visual_defs ex_defs)

subsection \<open>Check 3: the background category\<close>

text \<open>
  Claim C1. The category named "Background" is found, but when its id is 0 the test
  \<^verbatim>\<open>if background_cat_id:\<close> is false and check 3 does not run: the annotation that covers
  90 percent of its image is not collected. With the id 1 the same annotation is collected.
\<close>

theorem background_id_zero_skips_check:
  "find_background [ex_background 0] = Inr (JInt 0) \<and>
   check_background [ex_image] [ex_background 0] [ex_ann_background 0] = Inr None \<and>
   check_background [ex_image] [ex_background 1] [ex_ann_background 1] =
     Inr (Some [\<lparr>entry_id = JInt 8, entry_image_id = JInt 1, area_percent = JFloat 90\<rparr>])"
  by code_simp

section \<open>Properties of the text validator\<close>

lemmas text_defs =
  validate_text_annotations_def run_text_def get_column_def isnull_sum_def value_counts_def
  percentages_def text_results_of_def required_cols_def cell_at_def

lemmas ex_df_defs = ex_df_def ex_df_nan_def ex_df_no_intent_def

subsection \<open>Check 1: required columns\<close>

lemma index_of_None: "index_of c cs = None \<longleftrightarrow> c \<notin> set cs"
  by (induction cs) auto

lemma get_column_Inr:
  "c \<in> set (columns df) \<Longrightarrow> \<exists>col. get_column df c = Inr col \<and> length col = length (rows df)"
  by (cases "index_of c (columns df)") (auto simp: get_column_def index_of_None)

lemma get_column_Inl: "c \<notin> set (columns df) \<Longrightarrow> get_column df c = Inl KeyError"
  by (simp add: get_column_def index_of_None [THEN iffD2])

text \<open>
  Claim C2, as amended. When the columns \<^verbatim>\<open>intent\<close> and \<^verbatim>\<open>confidence\<close> are present, a
  missing \<^verbatim>\<open>id\<close> or \<^verbatim>\<open>text\<close> column is reported and is not fatal: the remaining checks run
  on the whole table and the results are returned.
\<close>

theorem missing_id_or_text_not_fatal:
  assumes "''intent'' \<in> set (columns df)" and "''confidence'' \<in> set (columns df)"
  shows "\<exists>s. run_text df = Inr s \<and>
             validate_text_annotations (Loaded df) = Inr (Some (text_results_of s)) \<and>
             missing_cols s = filter (\<lambda>col. col \<notin> set (columns df)) [''id'', ''text''] \<and>
             empty_counts s = isnull_sum df \<and> n_rows s = length (rows df)"
proof -
  from get_column_Inr [OF assms(1)] obtain ic where ic: "get_column df ''intent'' = Inr ic"
    by blast
  from get_column_Inr [OF assms(2)] obtain cc where cc: "get_column df ''confidence'' = Inr cc"
    by blast
  show ?thesis
    using ic cc assms
    by (simp add: run_text_def validate_text_annotations_def Let_def required_cols_def)
qed

theorem missing_id_or_text_not_fatal_witness:
  "''intent'' \<in> set (columns ex_df) \<and> ''confidence'' \<in> set (columns ex_df) \<and>
   validate_text_annotations (Loaded ex_df) =
     Inr (Some \<lparr>total_annotations = 4, unique_intents = 2, empty_values = 0,
                low_confidence_count = 1\<rparr>)"
proof -
  have i: "''intent'' \<in> set (columns ex_df)" by (simp add: ex_df_def)
  have c: "''confidence'' \<in> set (columns ex_df)" by (simp add: ex_df_def)
  have r: "validate_text_annotations (Loaded ex_df) =
     Inr (Some \<lparr>total_annotations = 4, unique_intents = 2, empty_values = 0,
                low_confidence_count = 1\<rparr>)"
    by code_simp
  show ?thesis
    using i c r missing_id_or_text_not_fatal [OF i c] by simp
qed

text \<open>
  A missing \<^verbatim>\<open>intent\<close> or \<^verbatim>\<open>confidence\<close> column is fatal: \<^verbatim>\<open>df['intent']\<close> and
  \<^verbatim>\<open>df['confidence']\<close> raise \<^verbatim>\<open>KeyError\<close>, and no results are returned.
\<close>

lemma missing_intent_raises:
  "''intent'' \<notin> set (columns df) \<Longrightarrow> validate_text_annotations (Loaded df) = Inl KeyError"
  by (simp add: validate_text_annotations_def run_text_def get_column_Inl Let_def)

lemma missing_confidence_raises:
  "validate_text_annotations (Loaded df) = Inl KeyError" if "''confidence'' \<notin> set (columns df)"
proof (cases "get_column df ''intent''")
  case (Inl e)
  then have "e = KeyError" by (auto simp: get_column_def split: option.splits)
  with Inl show ?thesis
    by (simp add: validate_text_annotations_def run_text_def Let_def)
next
  case (Inr ic)
  with that show ?thesis
    by (simp add: validate_text_annotations_def run_text_def get_column_Inl Let_def)
qed

text \<open>Claim C2 as stated fails on a table without the column \<^verbatim>\<open>intent\<close>.\<close>

theorem missing_intent_column_is_fatal:
  "validate_text_annotations (Loaded ex_df_no_intent) = Inl KeyError"
  by (simp add: text_defs ex_df_defs)

subsection \<open>Checks 3 and 4: percentages\<close>

lemma sum_list_insort_key:
  "sum_list (map g (insort_key f x xs)) = g x + sum_list (map g xs)"
  for g :: "'a \<Rightarrow> nat"
  by (induction xs) auto

lemma sum_list_sort_key: "sum_list (map g (sort_key f xs)) = sum_list (map g xs)"
  for g :: "'a \<Rightarrow> nat"
  by (induction xs) (auto simp: sum_list_insort_key)

lemma sum_count_distinct:
  "sum_list (map (count_list vs) (rev (remdups (rev vs)))) = length vs"
proof -
  have "sum_list (map (count_list vs) (rev (remdups (rev vs)))) = sum (count_list vs) (set vs)"
    by (subst sum_list_distinct_conv_sum_set) simp_all
  also have "\<dots> = length vs" by (rule sum_count_set) simp_all
  finally show ?thesis .
qed

lemma value_counts_total:
  "sum_list (map snd (value_counts xs)) = length (filter (\<lambda>c. c \<noteq> NaN) xs)"
  by (simp add: value_counts_def Let_def sum_list_sort_key comp_def sum_count_distinct)

lemma value_counts_set:
  "set (map snd (value_counts xs)) =
     count_list (filter (\<lambda>c. c \<noteq> NaN) xs) ` set (filter (\<lambda>c. c \<noteq> NaN) xs)"
  by (auto simp: value_counts_def Let_def image_iff)

lemma percent_total_percentages:
  "percent_total (percentages cs n) = of_nat (sum_list (map snd cs)) / of_nat n * 100"
  by (induction cs) (simp_all add: percent_total_def percentages_def add_divide_distrib distrib_right)

lemma percent_total_value_counts:
  "percent_total (percentages (value_counts xs) n) =
     of_nat (length (filter (\<lambda>c. c \<noteq> NaN) xs)) / of_nat n * 100"
  by (simp add: percent_total_percentages value_counts_total)

text \<open>
  Claim C4, as amended. For a table with at least one row, the percentages of the intent
  groups sum to 100 when no intent value is missing, and the percentages of the confidence
  levels sum to 100 when no confidence value is missing (in exact arithmetic). Missing
  values form no group but are counted in the total, see \<open>percent_total_value_counts\<close>.
\<close>

theorem percentages_sum_to_100:
  assumes "run_text df = Inr s" and "rows df \<noteq> []"
    and "get_column df ''intent'' = Inr intent"
    and "get_column df ''confidence'' = Inr confidence"
  shows "(NaN \<notin> set intent \<longrightarrow> percent_total (intent_percentages s) = 100) \<and>
         (NaN \<notin> set confidence \<longrightarrow> percent_total (confidence_percentages s) = 100)"
proof -
  have li: "length intent = length (rows df)" and lc: "length confidence = length (rows df)"
    using assms(3,4) by (auto simp: get_column_def split: option.splits)
  have ip: "intent_percentages s = percentages (value_counts intent) (length (rows df))"
    and cp: "confidence_percentages s = percentages (value_counts confidence) (length (rows df))"
    using assms(1,3,4) by (auto simp: run_text_def Let_def)
  have full: "NaN \<notin> set xs \<Longrightarrow> filter (\<lambda>c. c \<noteq> NaN) xs = xs" for xs :: "cell list"
    by (induction xs) auto
  show ?thesis
    using assms(2) li lc by (auto simp: ip cp percent_total_value_counts full)
qed

theorem percentages_sum_to_100_witness:
  "rows ex_df \<noteq> [] \<and>
   get_column ex_df ''intent'' = Inr [Str ''a'', Str ''a'', Str ''a'', Str ''b''] \<and>
   NaN \<notin> set [Str ''a'', Str ''a'', Str ''a'', Str ''b''] \<and>
   percent_total [(Str ''a'', 75), (Str ''b'', 25)] = 100"
proof -
  have r: "run_text ex_df =
     Inr \<lparr>n_rows = 4, missing_cols = [''id'', ''text''],
          empty_counts = [(''intent'', 0), (''confidence'', 0)],
          intent_counts = [(Str ''a'', 3), (Str ''b'', 1)],
          intent_percentages = [(Str ''a'', 75), (Str ''b'', 25)],
          imbalance_detected = False,
          confidence_counts = [(Str ''high'', 3), (Str ''low'', 1)],
          confidence_percentages = [(Str ''high'', 75), (Str ''low'', 25)],
          low_confidence = 1, low_confidence_flagged = True\<rparr>"
    by code_simp
  have n: "rows ex_df \<noteq> []" by (simp add: ex_df_def)
  have i: "get_column ex_df ''intent'' = Inr [Str ''a'', Str ''a'', Str ''a'', Str ''b'']"
    by (simp add: get_column_def cell_at_def ex_df_def)
  have c: "get_column ex_df ''confidence'' =
             Inr [Str ''high'', Str ''low'', Str ''high'', Str ''high'']"
    by (simp add: get_column_def cell_at_def ex_df_def)
  show ?thesis
    using n i percentages_sum_to_100 [OF r n i c] by simp
qed

text \<open>
  Claim C4 as stated fails: with one of two intent values missing, the only group has 50
  percent.
\<close>

theorem percentages_with_missing_intent:
  "run_text ex_df_nan =
     Inr \<lparr>n_rows = 2, missing_cols = [],
          empty_counts = [(''id'', 0), (''text'', 0), (''intent'', 1), (''confidence'', 0)],
          intent_counts = [(Str ''greet'', 1)],
          intent_percentages = [(Str ''greet'', 50)],
          imbalance_detected = False,
          confidence_counts = [(Str ''high'', 1), (Str ''low'', 1)],
          confidence_percentages = [(Str ''high'', 50), (Str ''low'', 50)],
          low_confidence = 1, low_confidence_flagged = True\<rparr> \<and>
   percent_total [(Str ''greet'', 50)] = 50"
proof -
  have "percent_total [(Str ''greet'', 50)] = 50" by (simp add: percent_total_def)
  moreover have "run_text ex_df_nan =
     Inr \<lparr>n_rows = 2, missing_cols = [],
          empty_counts = [(''id'', 0), (''text'', 0), (''intent'', 1), (''confidence'', 0)],
          intent_counts = [(Str ''greet'', 1)],
          intent_percentages = [(Str ''greet'', 50)],
          imbalance_detected = False,
          confidence_counts = [(Str ''high'', 1), (Str ''low'', 1)],
          confidence_percentages = [(Str ''high'', 50), (Str ''low'', 50)],
          low_confidence = 1, low_confidence_flagged = True\<rparr>"
    by code_simp
  ultimately show ?thesis by simp
qed

subsection \<open>Check 3: class imbalance\<close>

lemma series_max_Max: "cs \<noteq> [] \<Longrightarrow> series_max cs = Some (Max (set cs))"
proof (cases cs)
  case (Cons c ds)
  then show ?thesis using Max.set_eq_fold [of c ds] by simp
qed simp

lemma series_min_Min: "cs \<noteq> [] \<Longrightarrow> series_min cs = Some (Min (set cs))"
proof (cases cs)
  case (Cons c ds)
  then show ?thesis using Min.set_eq_fold [of c ds] by simp
qed simp



text \<open>The intents a, a, a, a, b have the ratio 4 and are reported as imbalanced.\<close>

theorem four_to_one_is_imbalanced:
  "map_sum id imbalance_detected (run_text ex_df5) = Inr True"
  by code_simp

section \<open>Properties of checks 2 and 3: the thresholds\<close>

lemma small_step_entries:
  "small_step images ann = Inr zs \<Longrightarrow> e \<in> set zs \<Longrightarrow>
     py_cmp Lt (area_percent e) (JInt 1) = Inr True"
  by (auto simp: small_step_def ebind_eq_Inr simp del: py_cmp.simps
        split: option.splits if_splits)

lemma large_step_entries:
  "large_step images bg ann = Inr zs \<Longrightarrow> e \<in> set zs \<Longrightarrow>
     py_cmp Gt (area_percent e) (JInt 50) = Inr True"
  by (auto simp: large_step_def ebind_eq_Inr simp del: py_cmp.simps
        split: option.splits if_splits)

lemma small_step_resolved:
  assumes "map_of kvs ''image_id'' = Some image_id" and "map_of kvs ''area'' = Some area"
    and "map_of kvs ''id'' = Some i"
    and "find_image images image_id = Inr (Some img)"
    and "py_getitem img ''width'' = Inr w" and "py_getitem img ''height'' = Inr h"
    and "num_of w = Some x" and "num_of h = Some y" and "x * y \<noteq> 0"
    and "num_of area = Some a"
  shows "small_step images (JObj kvs) =
           Inr (if a / (x * y) * 100 < 1
                then [\<lparr>entry_id = i, entry_image_id = image_id,
                       area_percent = JFloat (a / (x * y) * 100)\<rparr>]
                else [])"
proof -
  from img_area_num [OF assms(5,6,7,8)] obtain ar where
    ar: "img_area img = Inr ar" "num_of ar = Some (x * y)" by blast
  have pc: "percent_of area ar = Inr (JFloat (a / (x * y) * 100))"
    using percent_of_num [OF assms(10) ar(2) assms(9)] .
  have tr: "py_truthy img" using assms(4) by (rule find_image_truthy)
  show ?thesis
    using assms(1,2,3,4) ar(1) pc tr by (simp add: small_step_def)
qed

lemma large_step_resolved:
  assumes "map_of kvs ''image_id'' = Some image_id" and "map_of kvs ''area'' = Some area"
    and "map_of kvs ''id'' = Some i"
    and "find_image images image_id = Inr (Some img)"
    and "py_getitem img ''width'' = Inr w" and "py_getitem img ''height'' = Inr h"
    and "num_of w = Some x" and "num_of h = Some y" and "x * y \<noteq> 0"
    and "num_of area = Some a"
    and "map_of kvs ''category_id'' = Some c" and "py_eq c bg"
  shows "large_step images bg (JObj kvs) =
           Inr (if a / (x * y) * 100 > 50
                then [\<lparr>entry_id = i, entry_image_id = image_id,
                       area_percent = JFloat (a / (x * y) * 100)\<rparr>]
                else [])"
proof -
  from img_area_num [OF assms(5,6,7,8)] obtain ar where
    ar: "img_area img = Inr ar" "num_of ar = Some (x * y)" by blast
  have pc: "percent_of area ar = Inr (JFloat (a / (x * y) * 100))"
    using percent_of_num [OF assms(10) ar(2) assms(9)] .
  have tr: "py_truthy img" using assms(4) by (rule find_image_truthy)
  show ?thesis
    using assms(1,2,3,4,11,12) ar(1) pc tr by (simp add: large_step_def)
qed




section \<open>Properties of the visual validator as a whole\<close>

lemma hasE:
  assumes "has j k p"
  obtains kvs v where "j = JObj kvs" and "map_of kvs k = Some v" and "p v"
  using assms by (cases j) (auto simp: has_def field_def split: option.splits)

lemma is_intE: "is_int v \<Longrightarrow> (\<And>i. v = JInt i \<Longrightarrow> P) \<Longrightarrow> P"
  by (cases v) simp_all

lemma is_positive_intE: "is_positive_int v \<Longrightarrow> (\<And>i. v = JInt i \<Longrightarrow> 0 < i \<Longrightarrow> P) \<Longrightarrow> P"
  by (cases v) simp_all

lemma is_strE: "is_str v \<Longrightarrow> (\<And>s. v = JStr s \<Longrightarrow> P) \<Longrightarrow> P"
  by (cases v) simp_all

lemma is_number_num: "is_number v \<Longrightarrow> \<exists>r. num_of v = Some r"
  by (cases v) simp_all

lemma is_bboxE:
  assumes "is_bbox b"
  obtains x y w h where "b = JList [x, y, w, h]"
    and "is_number x" and "is_number y" and "is_number w" and "is_number h"
proof -
  from assms obtain xs where b: "b = JList xs" and l: "length xs = 4" and n: "list_all is_number xs"
    by (cases b) simp_all
  from l obtain x y w h where "xs = [x, y, w, h]"
    by (auto simp: eval_nat_numeral length_Suc_conv)
  with b n that show thesis by simp
qed

lemma is_imageE:
  assumes "is_image img"
  obtains kvs i w h where "img = JObj kvs" and "map_of kvs ''id'' = Some (JInt i)"
    and "map_of kvs ''width'' = Some (JInt w)" and "map_of kvs ''height'' = Some (JInt h)"
    and "0 < w" and "0 < h"
proof -
  from assms have a: "has img ''id'' is_int" and b: "has img ''width'' is_positive_int"
    and c: "has img ''height'' is_positive_int"
    by (simp_all add: is_image_def)
  from a obtain kvs v where j: "img = JObj kvs" and v: "map_of kvs ''id'' = Some v" "is_int v"
    by (rule hasE)
  from b j obtain w' where w: "map_of kvs ''width'' = Some w'" "is_positive_int w'"
    by (auto elim: hasE)
  from c j obtain h' where h: "map_of kvs ''height'' = Some h'" "is_positive_int h'"
    by (auto elim: hasE)
  from v w h j that show thesis
    by (auto elim!: is_intE is_positive_intE)
qed

lemma find_image_conforming:
  "list_all is_image imgs \<Longrightarrow>
     \<exists>found. find_image imgs i = Inr found \<and> (\<forall>img. found = Some img \<longrightarrow> is_image img)"
proof (induction imgs)
  case Nil
  then show ?case by simp
next
  case (Cons a imgs)
  then have "is_image a" by simp
  then obtain kvs n where "a = JObj kvs" "map_of kvs ''id'' = Some (JInt n)"
    by (rule is_imageE)
  with Cons show ?case by auto
qed

lemma is_annotationE:
  assumes "is_annotation ann"
  obtains kvs i iid c x y w h a where "ann = JObj kvs"
    and "map_of kvs ''id'' = Some (JInt i)" and "map_of kvs ''image_id'' = Some (JInt iid)"
    and "map_of kvs ''category_id'' = Some (JInt c)"
    and "map_of kvs ''bbox'' = Some (JList [x, y, w, h])"
    and "is_number x" and "is_number y" and "is_number w" and "is_number h"
    and "map_of kvs ''area'' = Some a" and "is_number a"
proof -
  from assms have 1: "has ann ''id'' is_int" and 2: "has ann ''image_id'' is_int"
    and 3: "has ann ''category_id'' is_int" and 4: "has ann ''bbox'' is_bbox"
    and 5: "has ann ''area'' is_number"
    by (simp_all add: is_annotation_def)
  from 1 obtain kvs v1 where j: "ann = JObj kvs" and v1: "map_of kvs ''id'' = Some v1" "is_int v1"
    by (rule hasE)
  from 2 j obtain v2 where v2: "map_of kvs ''image_id'' = Some v2" "is_int v2"
    by (auto elim: hasE)
  from 3 j obtain v3 where v3: "map_of kvs ''category_id'' = Some v3" "is_int v3"
    by (auto elim: hasE)
  from 4 j obtain v4 where v4: "map_of kvs ''bbox'' = Some v4" "is_bbox v4"
    by (auto elim: hasE)
  from 5 j obtain v5 where v5: "map_of kvs ''area'' = Some v5" "is_number v5"
    by (auto elim: hasE)
  from v4(2) obtain x y w h where b: "v4 = JList [x, y, w, h]"
    "is_number x" "is_number y" "is_number w" "is_number h"
    by (rule is_bboxE)
  from v1 v2 v3 obtain i iid c where "v1 = JInt i" "v2 = JInt iid" "v3 = JInt c"
    by (auto elim!: is_intE)
  with j v1 v2 v3 v4 v5 b that show thesis by blast
qed

lemma py_or_num:
  "num_of a = Some x \<Longrightarrow> num_of b = Some y \<Longrightarrow> num_of c = Some z \<Longrightarrow> num_of d = Some u \<Longrightarrow>
     py_or (py_cmp op a b) (py_cmp op c d) = Inr (cmp_rat op x y \<or> cmp_rat op z u)"
  by (simp add: py_cmp_num py_or_def)

lemma check_bbox_conforming:
  assumes "list_all is_image imgs" and "is_annotation ann"
  shows "\<exists>iss. check_bbox imgs ann = Inr iss"
proof -
  from assms(2) obtain kvs i iid c x y w h a where ann: "ann = JObj kvs"
    and f: "map_of kvs ''id'' = Some (JInt i)" "map_of kvs ''image_id'' = Some (JInt iid)"
      "map_of kvs ''bbox'' = Some (JList [x, y, w, h])"
    and n: "is_number x" "is_number y" "is_number w" "is_number h"
    by (rule is_annotationE)
  from n obtain rx ry rw rh where r: "num_of x = Some rx" "num_of y = Some ry"
    "num_of w = Some rw" "num_of h = Some rh"
    by (auto dest!: is_number_num)
  have bad: "py_or (py_cmp Le w (JInt 0)) (py_cmp Le h (JInt 0)) = Inr (rw \<le> 0 \<or> rh \<le> 0)"
    using py_or_num [OF r(3) _ r(4), of "JInt 0" 0 "JInt 0" 0 Le] by simp
  have neg: "py_or (py_cmp Lt x (JInt 0)) (py_cmp Lt y (JInt 0)) = Inr (rx < 0 \<or> ry < 0)"
    using py_or_num [OF r(1) _ r(2), of "JInt 0" 0 "JInt 0" 0 Lt] by simp
  from find_image_conforming [OF assms(1), of "JInt iid"] obtain found where
    found: "find_image imgs (JInt iid) = Inr found" "\<forall>img. found = Some img \<longrightarrow> is_image img"
    by blast
  show ?thesis
  proof (cases found)
    case None
    with ann f bad found show ?thesis by (simp add: check_bbox_def)
  next
    case (Some img)
    with found have "is_image img" by simp
    then obtain ikvs n iw ih where img: "img = JObj ikvs"
      "map_of ikvs ''id'' = Some (JInt n)"
      "map_of ikvs ''width'' = Some (JInt iw)" "map_of ikvs ''height'' = Some (JInt ih)"
      by (rule is_imageE)
    from py_add_num [OF r(1) r(3)] obtain sx where sx: "py_add x w = Inr sx" "num_of sx = Some (rx + rw)"
      by blast
    from py_add_num [OF r(2) r(4)] obtain sy where sy: "py_add y h = Inr sy" "num_of sy = Some (ry + rh)"
      by blast
    have cx: "py_cmp Gt sx (JInt iw) = Inr (rx + rw > of_int iw)"
      using py_cmp_num [OF sx(2), of "JInt iw" "of_int iw" Gt] by simp
    have cy: "py_cmp Gt sy (JInt ih) = Inr (ry + rh > of_int ih)"
      using py_cmp_num [OF sy(2), of "JInt ih" "of_int ih" Gt] by simp
    from img(1,2) have tr: "py_truthy img" by auto
    show ?thesis
      using ann f bad neg found(1) Some img tr sx(1) sy(1) cx cy
      by (simp add: check_bbox_def py_or_def del: py_cmp.simps)
  qed
qed

lemma relative_area_conforming:
  assumes "is_image img" and "is_number area"
  shows "\<exists>a r. img_area img = Inr a \<and> percent_of area a = Inr (JFloat r) \<and> py_truthy img"
proof -
  from assms(1) obtain kvs n w h where img: "img = JObj kvs"
    "map_of kvs ''id'' = Some (JInt n)"
    "map_of kvs ''width'' = Some (JInt w)" "map_of kvs ''height'' = Some (JInt h)"
    and pos: "0 < w" "0 < h"
    by (rule is_imageE)
  from assms(2) obtain ra where ra: "num_of area = Some ra" by (auto dest: is_number_num)
  have ia: "img_area img = Inr (JInt (w * h))"
    using img by (simp add: img_area_def py_mul_def)
  from pos have nz: "(of_int (w * h) :: rat) \<noteq> 0" by simp
  have "percent_of area (JInt (w * h)) = Inr (JFloat (ra / of_int (w * h) * 100))"
    using percent_of_num [OF ra _ nz, of "JInt (w * h)"] by simp
  with ia img show ?thesis by auto
qed

lemma small_step_conforming:
  assumes "list_all is_image imgs" and "is_annotation ann"
  shows "\<exists>zs. small_step imgs ann = Inr zs"
proof -
  from assms(2) obtain kvs i iid c x y w h a where ann: "ann = JObj kvs"
    and f: "map_of kvs ''id'' = Some (JInt i)" "map_of kvs ''image_id'' = Some (JInt iid)"
      "map_of kvs ''area'' = Some a" and a: "is_number a"
    by (rule is_annotationE)
  from find_image_conforming [OF assms(1), of "JInt iid"] obtain found where
    found: "find_image imgs (JInt iid) = Inr found" "\<forall>img. found = Some img \<longrightarrow> is_image img"
    by blast
  show ?thesis
  proof (cases found)
    case None
    with ann f found show ?thesis by (simp add: small_step_def)
  next
    case (Some img)
    with found have "is_image img" by simp
    from relative_area_conforming [OF this a] obtain ar r where
      "img_area img = Inr ar" "percent_of a ar = Inr (JFloat r)" "py_truthy img" by blast
    with ann f found(1) Some show ?thesis by (simp add: small_step_def)
  qed
qed

lemma large_step_conforming:
  assumes "list_all is_image imgs" and "is_annotation ann"
  shows "\<exists>zs. large_step imgs bg ann = Inr zs"
proof -
  from assms(2) obtain kvs i iid c x y w h a where ann: "ann = JObj kvs"
    and f: "map_of kvs ''id'' = Some (JInt i)" "map_of kvs ''image_id'' = Some (JInt iid)"
      "map_of kvs ''category_id'' = Some (JInt c)"
      "map_of kvs ''area'' = Some a" and a: "is_number a"
    by (rule is_annotationE)
  from find_image_conforming [OF assms(1), of "JInt iid"] obtain found where
    found: "find_image imgs (JInt iid) = Inr found" "\<forall>img. found = Some img \<longrightarrow> is_image img"
    by blast
  show ?thesis
  proof (cases found)
    case None
    with ann f found show ?thesis by (simp add: large_step_def)
  next
    case (Some img)
    with found have "is_image img" by simp
    from relative_area_conforming [OF this a] obtain ar r where
      "img_area img = Inr ar" "percent_of a ar = Inr (JFloat r)" "py_truthy img" by blast
    with ann f found(1) Some show ?thesis by (simp add: large_step_def)
  qed
qed

lemma find_background_conforming:
  "list_all is_category cats \<Longrightarrow> \<exists>bg. find_background cats = Inr bg"
proof (induction cats)
  case Nil
  then show ?case by simp
next
  case (Cons cat cats)
  then have "has cat ''id'' is_int" "has cat ''name'' is_str"
    by (simp_all add: is_category_def)
  then obtain kvs v s where "cat = JObj kvs" "map_of kvs ''id'' = Some v"
    "map_of kvs ''name'' = Some (JStr s)"
    by (auto elim!: hasE is_strE)
  with Cons show ?case by (auto simp: py_lower_def)
qed

lemma coverage_step_conforming:
  assumes "list_all is_annotation anns" and "is_image img"
  shows "\<exists>zs. coverage_step anns img = Inr zs"
proof -
  from assms(2) obtain kvs n where img: "img = JObj kvs" "map_of kvs ''id'' = Some (JInt n)"
    by (rule is_imageE)
  let ?f = "\<lambda>ann. ebind (py_getitem ann ''image_id'') (\<lambda>a.
                 ebind (py_getitem img ''id'') (\<lambda>i.
                   Inr (if py_eq a i then [ann] else [])))"
  have step: "\<exists>zs. ?f ann = Inr zs" if "ann \<in> set anns" for ann
  proof -
    from that assms(1) have "is_annotation ann" by (simp add: list_all_iff)
    then obtain akvs iid where "ann = JObj akvs" "map_of akvs ''image_id'' = Some (JInt iid)"
      by (rule is_annotationE)
    with img show ?thesis by simp
  qed
  have "\<exists>m. for_each ?f anns = Inr m"
    by (rule for_each_total) (rule step)
  then obtain m where "img_anns anns img = Inr m"
    by (auto simp: img_anns_def)
  with img show ?thesis by (auto simp: coverage_step_def)
qed

lemma sequence_ofE:
  assumes "sequence_of p (map_of kvs k)"
  obtains xs where "py_get (JObj kvs) k (JList []) = Inr (JList xs)" and "list_all p xs"
proof (cases "map_of kvs k")
  case None
  with that [of "[]"] show thesis by simp
next
  case (Some v)
  with assms obtain xs where "v = JList xs" "list_all p xs"
    by (cases v) simp_all
  with Some that [of xs] show thesis by simp
qed

lemma check_background_conforming:
  assumes "list_all is_image imgs" and "list_all is_category cats"
    and "list_all is_annotation anns"
  shows "\<exists>l. check_background imgs cats anns = Inr l"
proof -
  from find_background_conforming [OF assms(2)] obtain bg where
    bg: "find_background cats = Inr bg" by blast
  have "\<exists>zs. for_each (large_step imgs bg) anns = Inr zs"
  proof (rule for_each_total)
    fix ann assume "ann \<in> set anns"
    with assms(3) have "is_annotation ann" by (simp add: list_all_iff)
    with assms(1) show "\<exists>zs. large_step imgs bg ann = Inr zs"
      by (rule large_step_conforming)
  qed
  with bg show ?thesis by (auto simp: check_background_def)
qed

lemma run_visual_conforming:
  assumes "conforms data"
  shows "\<exists>s. run_visual data = Inr s"
proof -
  from assms obtain kvs where data: "data = JObj kvs"
    by (cases data) (simp_all add: conforms_def)
  with assms have seq: "sequence_of is_image (map_of kvs ''images'')"
    "sequence_of is_annotation (map_of kvs ''annotations'')"
    "sequence_of is_category (map_of kvs ''categories'')"
    by (simp_all add: conforms_def field_def)
  from seq(1) obtain imgs where imgs: "py_get (JObj kvs) ''images'' (JList []) = Inr (JList imgs)"
    "list_all is_image imgs" by (rule sequence_ofE)
  from seq(2) obtain anns where anns:
    "py_get (JObj kvs) ''annotations'' (JList []) = Inr (JList anns)"
    "list_all is_annotation anns" by (rule sequence_ofE)
  from seq(3) obtain cats where cats:
    "py_get (JObj kvs) ''categories'' (JList []) = Inr (JList cats)"
    "list_all is_category cats" by (rule sequence_ofE)
  have "\<exists>iss. for_each (check_bbox imgs) anns = Inr iss"
  proof (rule for_each_total)
    fix ann assume "ann \<in> set anns"
    with anns(2) have "is_annotation ann" by (simp add: list_all_iff)
    with imgs(2) show "\<exists>zs. check_bbox imgs ann = Inr zs" by (rule check_bbox_conforming)
  qed
  then obtain iss where c1: "for_each (check_bbox imgs) anns = Inr iss" ..
  have "\<exists>small. for_each (small_step imgs) anns = Inr small"
  proof (rule for_each_total)
    fix ann assume "ann \<in> set anns"
    with anns(2) have "is_annotation ann" by (simp add: list_all_iff)
    with imgs(2) show "\<exists>zs. small_step imgs ann = Inr zs" by (rule small_step_conforming)
  qed
  then obtain small where c2: "for_each (small_step imgs) anns = Inr small" ..
  from check_background_conforming [OF imgs(2) cats(2) anns(2)] obtain large where
    c3: "check_background imgs cats anns = Inr large" ..
  have "\<exists>u. for_each (coverage_step anns) imgs = Inr u"
  proof (rule for_each_total)
    fix img assume "img \<in> set imgs"
    with imgs(2) have "is_image img" by (simp add: list_all_iff)
    with anns(2) show "\<exists>zs. coverage_step anns img = Inr zs"
      by (rule coverage_step_conforming)
  qed
  then obtain u where c4: "for_each (coverage_step anns) imgs = Inr u" ..
  show ?thesis
    unfolding run_visual_def data
    by (simp only: imgs(1) anns(1) cats(1) ebind_Inr py_len.simps py_iter.simps c1 c2 c3 c4)
       blast
qed




end
